theory Spec2Isabelle
  imports Complex_Main "HOL-Library.Log_Nat"
begin

section \<open>Data model of the point-of-sale back end (server.py)\<close>

text \<open>
  The pydantic models of server.py become records. Several models share field names
  (\<open>id\<close>, \<open>created_at\<close>, \<open>product_id\<close>, ...), so every field carries a prefix naming its
  model: \<open>prod_\<close> (Product), \<open>cust_\<close> (Customer), \<open>item_\<close> (OrderItem), \<open>order_\<close> (Order),
  \<open>oc_\<close> (OrderCreate), \<open>pay_\<close> (PaymentRequest), \<open>mv_\<close> (InventoryMovement), \<open>user_\<close> (User).
  Python integers are unbounded: \<open>int\<close>. An \<open>Optional[...]\<close> field is an \<open>option\<close>.
  A \<open>datetime\<close> is an instant, counted in microseconds: \<open>int\<close>.
\<close>

type_synonym datetime = int

record User =
  user_id :: string
  user_username :: string
  user_pin :: string
  user_role :: string
  user_full_name :: string
  user_email :: "string option"
  user_phone :: "string option"
  user_is_approved :: bool
  user_created_at :: datetime
  user_updated_at :: datetime

record Product =
  prod_id :: string
  prod_name :: string
  prod_description :: "string option"
  prod_price :: int
  prod_category :: string
  prod_sku :: string
  prod_barcode :: "string option"
  prod_stock_quantity :: int
  prod_min_stock_level :: int
  prod_cost_price :: "int option"
  prod_is_active :: bool
  prod_created_at :: datetime
  prod_updated_at :: datetime

record Customer =
  cust_id :: string
  cust_name :: string
  cust_email :: "string option"
  cust_phone :: "string option"
  cust_address :: "string option"
  cust_loyalty_points :: int
  cust_total_spent :: int
  cust_created_at :: datetime
  cust_updated_at :: datetime

record OrderItem =
  item_product_id :: string
  item_product_name :: string
  item_quantity :: int
  item_unit_price :: int
  item_total_price :: int

record Order =
  order_id :: string
  order_number :: string
  order_customer_id :: "string option"
  order_customer_name :: "string option"
  order_items :: "OrderItem list"
  order_subtotal :: int
  order_tax_amount :: int
  order_discount_amount :: int
  order_total_amount :: int
  order_payment_method :: string
  order_payment_status :: string
  order_square_payment_id :: "string option"
  order_cashier_id :: string
  order_cashier_name :: string
  order_notes :: "string option"
  order_created_at :: datetime
  order_updated_at :: datetime

record OrderCreate =
  oc_customer_id :: "string option"
  oc_items :: "OrderItem list"
  oc_payment_method :: string
  oc_discount_amount :: int
  oc_notes :: "string option"

record PaymentRequest =
  pay_order_id :: string
  pay_payment_method :: string
  pay_amount :: int
  pay_cash_received :: "int option"
  pay_payment_token :: "string option"

record InventoryMovement =
  mv_id :: string
  mv_product_id :: string
  mv_movement_type :: string
  mv_quantity :: int
  mv_reference_id :: "string option"
  mv_notes :: "string option"
  mv_user_id :: string
  mv_created_at :: datetime

text \<open>
  The dictionary returned by \<open>process_payment\<close>; the key \<open>change_due\<close> is only set on
  one path, so it is optional here.
\<close>

record PaymentResponse =
  resp_payment_id :: string
  resp_status :: string
  resp_amount :: int
  resp_order_id :: string
  resp_change_due :: "int option"

text \<open>
  The document store: one list of documents per collection, in insertion order.
  Nothing in the code makes \<open>id\<close> a unique key, so duplicates are possible and the
  order of the documents matters.
\<close>

record db =
  users :: "User list"
  products :: "Product list"
  customers :: "Customer list"
  orders :: "Order list"
  inventory_movements :: "InventoryMovement list"

text \<open>What the handlers raise.\<close>

datatype error =
  HTTPException nat string
  | OverflowError

text \<open>
  The handlers read the clock and draw random identifiers. Both are inputs of the model:
  \<open>uuid4 k\<close> is the text of the \<open>k\<close>-th UUID a request draws, \<open>now k\<close> its \<open>k\<close>-th clock
  reading, \<open>strftime\<close> the formatting of an instant as \<open>%Y%m%d%H%M%S\<close>, and
  \<open>fromisoformat\<close> is \<open>datetime.fromisoformat\<close>, with \<open>None\<close> for its \<open>ValueError\<close>.
\<close>

record env =
  uuid4 :: "nat \<Rightarrow> string"
  now :: "nat \<Rightarrow> datetime"
  strftime :: "datetime \<Rightarrow> string"
  fromisoformat :: "string \<Rightarrow> datetime option"

section \<open>Python and store primitives\<close>

text \<open>Truthiness of an \<open>Optional[str]\<close> and of an \<open>Optional[int]\<close>.\<close>

definition truthy_str :: "string option \<Rightarrow> bool" where
  "truthy_str s = (case s of None \<Rightarrow> False | Some t \<Rightarrow> t \<noteq> [])"

definition truthy_int :: "int option \<Rightarrow> bool" where
  "truthy_int n = (case n of None \<Rightarrow> False | Some k \<Rightarrow> k \<noteq> 0)"

text \<open>\<open>str.upper\<close> on the characters a UUID is made of, and \<open>str.replace('Z', '+00:00')\<close>.\<close>

definition upper_char :: "char \<Rightarrow> char" where
  "upper_char c =
     (if 97 \<le> (of_char c :: nat) \<and> (of_char c :: nat) \<le> 122
      then char_of ((of_char c :: nat) - 32) else c)"

definition upper :: "string \<Rightarrow> string" where
  "upper s = map upper_char s"

definition replace_Z :: "string \<Rightarrow> string" where
  "replace_Z s = concat (map (\<lambda>c. if c = CHR ''Z'' then ''+00:00'' else [c]) s)"

text \<open>
  \<open>find_one\<close> returns the first document that matches, \<open>update_one\<close> changes the first
  document that matches and nothing when none does, \<open>insert_one\<close> appends.
\<close>

definition find_one :: "('a \<Rightarrow> bool) \<Rightarrow> 'a list \<Rightarrow> 'a option" where
  "find_one P docs = List.find P docs"

fun update_one :: "('a \<Rightarrow> bool) \<Rightarrow> ('a \<Rightarrow> 'a) \<Rightarrow> 'a list \<Rightarrow> 'a list" where
  "update_one P f [] = []"
| "update_one P f (d # docs) = (if P d then f d # docs else d # update_one P f docs)"

definition insert_one :: "'a \<Rightarrow> 'a list \<Rightarrow> 'a list" where
  "insert_one d docs = docs @ [d]"

subsection \<open>Binary64 arithmetic\<close>

text \<open>
  \<open>create_order\<close> multiplies the integer subtotal by the float literal \<open>0.08\<close> and
  truncates the product with \<open>int()\<close>. A finite double is modelled exactly, as a pair
  \<open>(m, e)\<close> that stands for the number \<open>m * 2 ^ e\<close>.

  \<open>round_to_double m e\<close> rounds the exact number \<open>m * 2 ^ e\<close> to binary64: at most 53
  significant bits, no exponent below \<open>-1074\<close>, nearest value, ties to the even
  significand. The exponent is not bounded above here; the callers check the range.
\<close>

type_synonym double = "int \<times> int"

definition round_to_double :: "int \<Rightarrow> int \<Rightarrow> double" where
  "round_to_double m e =
     (let a = \<bar>m\<bar>;
          sh = max (bitlen a - 53) (- 1074 - e)
      in if sh \<le> 0 then (m, e)
         else
           let q = a div 2 ^ nat sh;
               r = a mod 2 ^ nat sh;
               half = 2 ^ nat (sh - 1);
               q' = (if half < r \<or> (r = half \<and> odd q) then q + 1 else q)
           in (sgn m * q', e + sh))"

text \<open>The magnitude of a double reaches \<open>2 ^ 1024\<close>: out of the range of binary64.\<close>

definition double_overflows :: "double \<Rightarrow> bool" where
  "double_overflows x = (case x of (m, e) \<Rightarrow>
     (if 0 \<le> e then 2 ^ 1024 \<le> \<bar>m\<bar> * 2 ^ nat e else 2 ^ 1024 * 2 ^ nat (- e) \<le> \<bar>m\<bar>))"

text \<open>
  The conversion of a Python integer to a float, as \<open>int * float\<close> does it first:
  correctly rounded, and an \<open>OverflowError\<close> when the integer is too large.
\<close>

definition py_float_of_int :: "int \<Rightarrow> error + double" where
  "py_float_of_int n =
     (let x = round_to_double n 0 in if double_overflows x then Inl OverflowError else Inr x)"

text \<open>
  The product of two doubles, correctly rounded. (A product beyond the range would be
  an infinity; the only product formed here has a factor below 1 and stays in range.)
\<close>

definition float_mul :: "double \<Rightarrow> double \<Rightarrow> double" where
  "float_mul x y = (case x of (m1, e1) \<Rightarrow> case y of (m2, e2) \<Rightarrow>
     round_to_double (m1 * m2) (e1 + e2))"

text \<open>\<open>int(x)\<close> on a finite float: truncation toward zero.\<close>

definition py_int_of_float :: "double \<Rightarrow> int" where
  "py_int_of_float x = (case x of (m, e) \<Rightarrow>
     (if 0 \<le> e then m * 2 ^ nat e else sgn m * (\<bar>m\<bar> div 2 ^ nat (- e))))"

text \<open>
  The literal \<open>0.08\<close>: the double nearest to 8/100, which is
  \<open>5764607523034235 * 2 ^ -56\<close> (hexadecimal \<open>0x1.47ae147ae147bp-4\<close>).
\<close>

definition tax_rate :: double where
  "tax_rate = (5764607523034235, - 56)"

section \<open>Order engine\<close>

text \<open>\<open>generate_order_number\<close>: the first clock reading and the first UUID of the request.\<close>

definition generate_order_number :: "env \<Rightarrow> string" where
  "generate_order_number E =
     ''ORD-'' @ strftime E (now E 0) @ ''-'' @ upper (take 8 (uuid4 E 0))"

text \<open>
  The two writes of the loop of \<open>create_order\<close> for one line item: the \<open>$inc\<close> of the
  product's stock by \<open>- quantity\<close>, and the movement that is inserted. The \<open>id\<close> and
  \<open>created_at\<close> of the \<open>k\<close>-th movement are drawn after those of the order.
\<close>

definition inc_stock_quantity :: "int \<Rightarrow> Product \<Rightarrow> Product" where
  "inc_stock_quantity delta p = p\<lparr>prod_stock_quantity := prod_stock_quantity p + delta\<rparr>"

definition sale_movement :: "env \<Rightarrow> string \<Rightarrow> string \<Rightarrow> nat \<Rightarrow> OrderItem \<Rightarrow> InventoryMovement" where
  "sale_movement E oid uid k item =
     \<lparr>mv_id = uuid4 E (2 + k),
      mv_product_id = item_product_id item,
      mv_movement_type = ''sale'',
      mv_quantity = - item_quantity item,
      mv_reference_id = Some oid,
      mv_notes = None,
      mv_user_id = uid,
      mv_created_at = now E (3 + k)\<rparr>"

text \<open>
  The loop of \<open>create_order\<close> over the line items: \<open>update_one\<close> on the first product
  with the item's product id, then \<open>insert_one\<close> of the movement.
\<close>

fun update_inventory :: "env \<Rightarrow> string \<Rightarrow> string \<Rightarrow> nat \<Rightarrow> OrderItem list \<Rightarrow> db \<Rightarrow> db" where
  "update_inventory E oid uid k [] D = D"
| "update_inventory E oid uid k (item # rest) D =
     (let D1 = D\<lparr>products :=
                  update_one (\<lambda>p. prod_id p = item_product_id item)
                    (inc_stock_quantity (- item_quantity item)) (products D)\<rparr>;
          movement = sale_movement E oid uid k item;
          D2 = D1\<lparr>inventory_movements := insert_one movement (inventory_movements D1)\<rparr>
      in update_inventory E oid uid (Suc k) rest D2)"

text \<open>
  The call \<open>Order(...)\<close> of \<open>create_order\<close>: the fields it passes, and the fields the
  model's defaults fill in (\<open>id\<close>, \<open>payment_status\<close>, \<open>square_payment_id\<close>, the timestamps).
\<close>

definition new_order ::
  "env \<Rightarrow> OrderCreate \<Rightarrow> User \<Rightarrow> string option \<Rightarrow> int \<Rightarrow> int \<Rightarrow> int \<Rightarrow> Order" where
  "new_order E order_data current_user customer_name subtotal tax_amount total_amount =
     \<lparr>order_id = uuid4 E 1,
      order_number = generate_order_number E,
      order_customer_id = oc_customer_id order_data,
      order_customer_name = customer_name,
      order_items = oc_items order_data,
      order_subtotal = subtotal,
      order_tax_amount = tax_amount,
      order_discount_amount = oc_discount_amount order_data,
      order_total_amount = total_amount,
      order_payment_method = oc_payment_method order_data,
      order_payment_status = ''pending'',
      order_square_payment_id = None,
      order_cashier_id = user_id current_user,
      order_cashier_name = user_full_name current_user,
      order_notes = oc_notes order_data,
      order_created_at = now E 1,
      order_updated_at = now E 2\<rparr>"

text \<open>
  The customer name of \<open>create_order\<close>: \<open>None\<close> unless \<open>customer_id\<close> is given and
  non-empty and \<open>find_one\<close> returns a customer with that id.
\<close>

definition find_customer_name :: "string option \<Rightarrow> Customer list \<Rightarrow> string option" where
  "find_customer_name customer_id docs =
     (if truthy_str customer_id
      then (case find_one (\<lambda>c. Some (cust_id c) = customer_id) docs of
              Some customer \<Rightarrow> Some (cust_name customer)
            | None \<Rightarrow> None)
      else None)"

text \<open>
  \<open>create_order\<close>. The result is what the handler returns or raises, paired with the
  store as the handler leaves it.
\<close>

definition create_order :: "env \<Rightarrow> OrderCreate \<Rightarrow> User \<Rightarrow> db \<Rightarrow> (error + Order) \<times> db" where
  "create_order E order_data current_user D =
     (let subtotal = sum_list (map item_total_price (oc_items order_data))
      in case py_float_of_int subtotal of
           Inl err \<Rightarrow> (Inl err, D)
         | Inr x \<Rightarrow>
            (let tax_amount = py_int_of_float (float_mul x tax_rate);
                 total_amount = subtotal + tax_amount - oc_discount_amount order_data;
                 customer_name = find_customer_name (oc_customer_id order_data) (customers D);
                 order = new_order E order_data current_user customer_name
                           subtotal tax_amount total_amount;
                 D1 = D\<lparr>orders := insert_one order (orders D)\<rparr>
             in (Inr order,
                 update_inventory E (order_id order) (user_id current_user) 0
                   (oc_items order_data) D1)))"

text \<open>
  \<open>get_orders\<close>. The date filter is built only when both bounds are given and non-empty
  (\<open>if date_from and date_to\<close>); \<open>date_from\<close> is parsed first, and a \<open>ValueError\<close> of
  either parse becomes the 400 response. The query is \<open>None\<close> for the empty filter.
\<close>

definition find_orders :: "(datetime \<times> datetime) option \<Rightarrow> Order list \<Rightarrow> Order list" where
  "find_orders query docs =
     (case query of
        None \<Rightarrow> docs
      | Some (from_date, to_date) \<Rightarrow>
          filter (\<lambda>order. from_date \<le> order_created_at order \<and> order_created_at order \<le> to_date)
            docs)"

text \<open>\<open>.sort("created_at", -1)\<close>: descending by \<open>created_at\<close>.\<close>

definition sort_created_at_desc :: "Order list \<Rightarrow> Order list" where
  "sort_created_at_desc docs = sort_key (\<lambda>order. - order_created_at order) docs"

definition to_list :: "nat \<Rightarrow> 'a list \<Rightarrow> 'a list" where
  "to_list len docs = take len docs"

definition get_orders :: "env \<Rightarrow> string option \<Rightarrow> string option \<Rightarrow> db \<Rightarrow> error + Order list" where
  "get_orders E date_from date_to D =
     (case (case (date_from, date_to) of
              (Some df, Some dt) \<Rightarrow>
                (if df \<noteq> [] \<and> dt \<noteq> []
                 then (case fromisoformat E (replace_Z df) of
                         None \<Rightarrow> Inl (HTTPException 400 ''Invalid date format'')
                       | Some from_date \<Rightarrow>
                          (case fromisoformat E (replace_Z dt) of
                             None \<Rightarrow> Inl (HTTPException 400 ''Invalid date format'')
                           | Some to_date \<Rightarrow> Inr (Some (from_date, to_date))))
                 else Inr None)
            | _ \<Rightarrow> Inr None) of
        Inl err \<Rightarrow> Inl err
      | Inr query \<Rightarrow> Inr (to_list 100 (sort_created_at_desc (find_orders query (orders D)))))"

section \<open>Payment state machine\<close>

text \<open>\<open>payment_data.cash_received and payment_data.cash_received >= payment_data.amount\<close>.\<close>

definition cash_accepted :: "int option \<Rightarrow> int \<Rightarrow> bool" where
  "cash_accepted cash_received amount =
     (case cash_received of None \<Rightarrow> False | Some c \<Rightarrow> c \<noteq> 0 \<and> amount \<le> c)"

text \<open>
  The two update documents of \<open>process_payment\<close>: the \<open>$set\<close> on the order and the
  \<open>$inc\<close> on the customer (\<open>//\<close> is floor division, as \<open>div\<close> on \<open>int\<close> is).
\<close>

definition set_payment :: "string \<Rightarrow> string \<Rightarrow> datetime \<Rightarrow> Order \<Rightarrow> Order" where
  "set_payment payment_status payment_id t doc =
     doc\<lparr>order_payment_status := payment_status,
         order_square_payment_id := Some payment_id,
         order_updated_at := t\<rparr>"

definition inc_spent :: "int \<Rightarrow> Customer \<Rightarrow> Customer" where
  "inc_spent amount c =
     c\<lparr>cust_total_spent := cust_total_spent c + amount,
       cust_loyalty_points := cust_loyalty_points c + amount div 100\<rparr>"

text \<open>
  \<open>process_payment\<close>. The three \<open>raise\<close> statements come before the two writes; the
  result pairs what the handler returns or raises with the store as it leaves it.
\<close>

definition process_payment :: "env \<Rightarrow> PaymentRequest \<Rightarrow> db \<Rightarrow> (error + PaymentResponse) \<times> db" where
  "process_payment E payment_data D =
     (case find_one (\<lambda>doc. order_id doc = pay_order_id payment_data) (orders D) of
        None \<Rightarrow> (Inl (HTTPException 404 ''Order not found''), D)
      | Some order \<Rightarrow>
          if order_payment_status order = ''completed''
          then (Inl (HTTPException 400 ''Order already paid''), D)
          else if pay_payment_method payment_data = ''cash'' \<and>
                  \<not> cash_accepted (pay_cash_received payment_data) (pay_amount payment_data)
          then (Inl (HTTPException 400 ''Insufficient cash received''), D)
          else
            (let payment_status = ''completed'';
                 payment_id = ''pay_'' @ take 8 (uuid4 E 0);
                 D1 = D\<lparr>orders :=
                          update_one (\<lambda>doc. order_id doc = pay_order_id payment_data)
                            (set_payment payment_status payment_id (now E 0)) (orders D)\<rparr>;
                 D2 = (if truthy_str (order_customer_id order)
                       then D1\<lparr>customers :=
                               update_one (\<lambda>c. Some (cust_id c) = order_customer_id order)
                                 (inc_spent (pay_amount payment_data)) (customers D1)\<rparr>
                       else D1);
                 response_data =
                   \<lparr>resp_payment_id = payment_id,
                    resp_status = payment_status,
                    resp_amount = pay_amount payment_data,
                    resp_order_id = pay_order_id payment_data,
                    resp_change_due =
                      (if pay_payment_method payment_data = ''cash'' \<and>
                          truthy_int (pay_cash_received payment_data)
                       then map_option (\<lambda>c. c - pay_amount payment_data)
                              (pay_cash_received payment_data)
                       else None)\<rparr>
             in (Inr response_data, D2)))"


section \<open>What the specification says, in its own words\<close>

text \<open>
  The tax as the specification words it: the floor of the exact product of the subtotal
  and the rational number 8/100.
\<close>

definition spec_tax_amount :: "int \<Rightarrow> int" where
  "spec_tax_amount subtotal = \<lfloor>rat_of_int subtotal * (8 / 100)\<rfloor>"

text \<open>
  The loyalty points of a payment as the specification words them: the floor of the
  amount divided by 100.
\<close>

definition spec_loyalty_points :: "int \<Rightarrow> int" where
  "spec_loyalty_points amount = \<lfloor>rat_of_int amount / 100\<rfloor>"

text \<open>The quantity a cart orders of one product: the sum over its line items.\<close>

definition ordered_quantity :: "string \<Rightarrow> OrderItem list \<Rightarrow> int" where
  "ordered_quantity pid items =
     sum_list (map item_quantity (filter (\<lambda>item. item_product_id item = pid) items))"

section \<open>Sample data\<close>

definition sample_env :: env where
  "sample_env =
     \<lparr>uuid4 = (\<lambda>k. ''3f2a9c1e-6b7d-4e8f-9a0b-'' @ replicate (Suc k) (CHR ''a'')),
      now = (\<lambda>k. 1700000000000000 + int k),
      strftime = (\<lambda>t. ''20231114221320''),
      fromisoformat =
        (\<lambda>s. if s = ''2023-11-14T00:00:00+00:00'' then Some 1699920000000000
             else if s = ''2023-11-15T00:00:00+00:00'' then Some 1700006400000000
             else None)\<rparr>"

definition sample_user :: User where
  "sample_user =
     \<lparr>user_id = ''u-1'', user_username = ''cashier1'', user_pin = ''03ac67'',
      user_role = ''employee'', user_full_name = ''Cashier One'', user_email = None,
      user_phone = None, user_is_approved = True, user_created_at = 0, user_updated_at = 0\<rparr>"

definition sample_product :: "string \<Rightarrow> int \<Rightarrow> Product" where
  "sample_product pid stock =
     \<lparr>prod_id = pid, prod_name = ''Coffee'', prod_description = None, prod_price = 350,
      prod_category = ''Beverages'', prod_sku = pid, prod_barcode = None,
      prod_stock_quantity = stock, prod_min_stock_level = 10, prod_cost_price = None,
      prod_is_active = True, prod_created_at = 0, prod_updated_at = 0\<rparr>"

definition sample_customer :: Customer where
  "sample_customer =
     \<lparr>cust_id = ''c-1'', cust_name = ''Ada'', cust_email = None, cust_phone = None,
      cust_address = None, cust_loyalty_points = 5, cust_total_spent = 2000,
      cust_created_at = 0, cust_updated_at = 0\<rparr>"

definition sample_item :: "string \<Rightarrow> int \<Rightarrow> int \<Rightarrow> OrderItem" where
  "sample_item pid qty price =
     \<lparr>item_product_id = pid, item_product_name = ''Coffee'', item_quantity = qty,
      item_unit_price = 350, item_total_price = price\<rparr>"

definition sample_order_data :: "OrderItem list \<Rightarrow> OrderCreate" where
  "sample_order_data items =
     \<lparr>oc_customer_id = None, oc_items = items, oc_payment_method = ''cash'',
      oc_discount_amount = 0, oc_notes = None\<rparr>"

definition sample_order :: "string \<Rightarrow> string option \<Rightarrow> string \<Rightarrow> datetime \<Rightarrow> Order" where
  "sample_order oid cid st created =
     \<lparr>order_id = oid, order_number = ''ORD-20231114221320-3F2A9C1E'',
      order_customer_id = cid, order_customer_name = None, order_items = [],
      order_subtotal = 0, order_tax_amount = 0, order_discount_amount = 0,
      order_total_amount = 0, order_payment_method = ''cash'', order_payment_status = st,
      order_square_payment_id = None, order_cashier_id = ''u-1'',
      order_cashier_name = ''Cashier One'', order_notes = None,
      order_created_at = created, order_updated_at = created\<rparr>"

definition sample_db :: "Order list \<Rightarrow> db" where
  "sample_db os =
     \<lparr>users = [sample_user],
      products = [sample_product ''P1'' 100, sample_product ''P2'' 50],
      customers = [sample_customer],
      orders = os,
      inventory_movements = []\<rparr>"

definition sample_payment :: "string \<Rightarrow> string \<Rightarrow> int \<Rightarrow> int option \<Rightarrow> PaymentRequest" where
  "sample_payment oid method amount cash =
     \<lparr>pay_order_id = oid, pay_payment_method = method, pay_amount = amount,
      pay_cash_received = cash, pay_payment_token = None\<rparr>"

section \<open>Facts about the primitives\<close>

lemma spec_tax_amount_div: "spec_tax_amount s = s * 8 div 100"
proof -
  have "rat_of_int s * (8 / 100) = rat_of_int (s * 8) / rat_of_int 100"
    by simp
  then show ?thesis
    unfolding spec_tax_amount_def by (simp only: floor_divide_of_int_eq)
qed

lemma round_to_double_error:
  assumes R: "round_to_double m e = (m', e')"
    and SH: "sh = nat (max (bitlen \<bar>m\<bar> - 53) (- 1074 - e))"
  shows "e' = e + int sh \<and> 2 * \<bar>m' * 2 ^ sh - m\<bar> \<le> 2 ^ sh"
proof -
  define X where "X = max (bitlen \<bar>m\<bar> - 53) (- 1074 - e)"
  have rd: "round_to_double m e =
      (if X \<le> 0 then (m, e)
       else (sgn m * (if 2 ^ nat (X - 1) < \<bar>m\<bar> mod 2 ^ nat X \<or>
                         (\<bar>m\<bar> mod 2 ^ nat X = 2 ^ nat (X - 1) \<and> odd (\<bar>m\<bar> div 2 ^ nat X))
                      then \<bar>m\<bar> div 2 ^ nat X + 1 else \<bar>m\<bar> div 2 ^ nat X), e + X))"
    unfolding round_to_double_def Let_def X_def by (rule refl)
  have shX: "sh = nat X" using SH unfolding X_def .
  show ?thesis
  proof (cases "X \<le> 0")
    case True
    then have "sh = 0" using shX by simp
    moreover from True R rd have "m' = m" "e' = e" by simp_all
    ultimately show ?thesis by simp
  next
    case False
    define S :: int where "S = 2 ^ sh"
    define a where "a = \<bar>m\<bar>"
    define q where "q = a div S"
    define r where "r = a mod S"
    define half :: int where "half = 2 ^ (sh - 1)"
    define q' where "q' = (if half < r \<or> (r = half \<and> odd q) then q + 1 else q)"
    from False shX have sh: "0 < sh" and X: "X = int sh"
      by linarith+
    have n1: "nat (int sh - 1) = sh - 1"
      by linarith
    from sh have S2: "S = 2 * half"
      unfolding S_def half_def by (cases sh) simp_all
    from sh have notle: "\<not> int sh \<le> 0"
      by simp
    have "round_to_double m e = (sgn m * q', e + int sh)"
      unfolding rd X q'_def half_def r_def q_def a_def S_def
      by (simp only: notle if_False nat_int n1)
    with R have res: "m' = sgn m * q'" "e' = e + int sh"
      by simp_all
    have S_pos: "0 < S" unfolding S_def by simp
    have a_eq: "a = q * S + r" and r_bounds: "0 \<le> r" "r < S"
      unfolding q_def r_def using S_pos by simp_all
    have err: "2 * \<bar>q' * S - a\<bar> \<le> S"
      unfolding q'_def using a_eq r_bounds S2 by (auto simp: algebra_simps)
    have "m' * S - m = sgn m * q' * S - sgn m * \<bar>m\<bar>"
      using res(1) by (simp add: mult_sgn_abs)
    also have "\<dots> = sgn m * (q' * S - a)"
      by (simp add: a_def algebra_simps)
    finally have "m' * S - m = sgn m * (q' * S - a)" .
    then have "\<bar>m' * S - m\<bar> \<le> \<bar>q' * S - a\<bar>"
      by (simp add: abs_mult abs_sgn_eq)
    with err res(2) show ?thesis unfolding S_def by simp
  qed
qed


lemma py_float_of_int_exact:
  assumes "\<bar>n\<bar> < 2 ^ 53"
  shows "py_float_of_int n = Inr (n, 0)"
proof -
  from assms have "bitlen \<bar>n\<bar> \<le> 53"
    by (simp add: bitlen_le_iff_power)
  then have "round_to_double n 0 = (n, 0)"
    by (simp add: round_to_double_def Let_def)
  moreover from assms have "\<not> double_overflows (n, 0)"
    by (simp add: double_overflows_def)
  ultimately show ?thesis
    by (simp add: py_float_of_int_def Let_def)
qed

lemma div_between:
  fixes m :: int
  assumes "k * T \<le> m" and "m < (k + 1) * T"
  shows "m div T = k"
proof (rule int_div_pos_eq [where r = "m - k * T"])
  show "m = T * k + (m - k * T)" by simp
  show "0 \<le> m - k * T" using assms(1) by simp
  show "m - k * T < T" using assms(2) by (simp add: algebra_simps)
qed

lemma tax_nonneg:
  assumes n0: "0 < n" and nB: "3 * n < 7 * 2 ^ 51"
  shows "py_int_of_float (float_mul (n, 0) tax_rate) = n * 8 div 100"
proof -
  define M :: int where "M = n * 5764607523034235"
  define k where "k = n * 8 div 100"
  obtain m' e' where R: "round_to_double M (- 56) = (m', e')"
    by (cases "round_to_double M (- 56)")
  define sh where "sh = nat (max (bitlen \<bar>M\<bar> - 53) (- 1074 - (- 56)))"
  from round_to_double_error [OF R sh_def]
  have e': "e' = - 56 + int sh" and err: "2 * \<bar>m' * 2 ^ sh - M\<bar> \<le> 2 ^ sh"
    by simp_all
  have M_pos: "0 < M" using n0 by (simp add: M_def)
  have "M < 2 ^ 105" using nB by (simp add: M_def)
  then have "bitlen \<bar>M\<bar> \<le> 105"
    using M_pos by (simp add: bitlen_le_iff_power)
  then have sh52: "sh \<le> 52"
    by (simp add: sh_def)
  define S :: int where "S = 2 ^ sh"
  define T :: int where "T = 2 ^ (56 - sh)"
  have ST: "S * T = 2 ^ 56"
    unfolding S_def T_def using sh52 by (simp flip: power_add)
  have S_pos: "0 < S" and T_pos: "0 < T"
    by (simp_all add: S_def T_def)
  have "S \<le> 2 ^ 52"
    unfolding S_def using sh52 by (intro power_increasing) simp_all
  then have S_le: "S \<le> 4503599627370496" by simp
  have k1: "100 * k \<le> 8 * n"
    unfolding k_def by presburger
  have k2: "8 * n \<le> 100 * k + 96"
    unfolding k_def by presburger
  have lowM: "k * 2 ^ 56 \<le> M" and upM: "M + 2 ^ 51 < (k + 1) * 2 ^ 56"
    using k1 k2 nB n0 unfolding M_def by simp_all
  from err have err': "2 * \<bar>m' * S - M\<bar> \<le> S"
    unfolding S_def .
  define x where "x = m' * S"
  from err' have "2 * \<bar>x - M\<bar> \<le> S"
    unfolding x_def .
  then have "2 * M - S \<le> 2 * x" and "2 * x \<le> 2 * M + S"
    by arith+
  then have e1: "2 * M - S \<le> 2 * (m' * S)" and e2: "2 * (m' * S) \<le> 2 * M + S"
    unfolding x_def .
  have "(2 * (k * T) - 1) * S = 2 * (k * (S * T)) - S"
    by (simp add: algebra_simps)
  also have "\<dots> = 2 * (k * 2 ^ 56) - S"
    by (simp only: ST)
  also have "\<dots> \<le> 2 * M - S"
    using lowM by linarith
  also have "\<dots> \<le> (2 * m') * S"
    using e1 by (simp only: mult.assoc)
  finally have "(2 * (k * T) - 1) * S \<le> (2 * m') * S" .
  then have "2 * (k * T) - 1 \<le> 2 * m'"
    using S_pos by (rule mult_right_le_imp_le)
  then have low: "k * T \<le> m'" by linarith
  have "(2 * m') * S \<le> 2 * M + S"
    using e2 by (simp only: mult.assoc)
  also have "\<dots> < 2 * ((k + 1) * 2 ^ 56)"
  proof -
    have "(2::int) ^ 51 = 2251799813685248" by simp
    with upM have "M + 2251799813685248 < (k + 1) * 2 ^ 56" by simp
    with S_le show ?thesis by linarith
  qed
  also have "\<dots> = 2 * ((k + 1) * (S * T))"
    by (simp only: ST)
  also have "\<dots> = (2 * ((k + 1) * T)) * S"
    by (simp add: algebra_simps)
  finally have "(2 * m') * S < (2 * ((k + 1) * T)) * S" .
  then have "2 * m' < 2 * ((k + 1) * T)"
    using S_pos by (intro mult_right_less_imp_less [of "2 * m'" S]) simp_all
  then have up: "m' < (k + 1) * T" by linarith
  from low up have d: "m' div T = k" by (rule div_between)
  have "0 \<le> k" unfolding k_def using n0 by simp
  with low T_pos have m'0: "0 \<le> m'"
    by (meson mult_nonneg_nonneg less_imp_le order_trans)
  have "py_int_of_float (m', e') = sgn m' * (\<bar>m'\<bar> div T)"
    unfolding py_int_of_float_def e' T_def using sh52 by (simp add: nat_diff_distrib')
  also have "\<dots> = m' div T"
    using m'0 by (cases "m' = 0") (simp_all add: sgn_if)
  finally show ?thesis
    using R d unfolding float_mul_def tax_rate_def M_def k_def by simp
qed

lemma round_to_double_uminus:
  "round_to_double (- m) e = (case round_to_double m e of (m', e') \<Rightarrow> (- m', e'))"
  by (simp add: round_to_double_def Let_def sgn_minus)

lemma py_int_of_float_uminus: "py_int_of_float (- m, e) = - py_int_of_float (m, e)"
  by (simp add: py_int_of_float_def sgn_minus)

lemma tax_zero: "py_int_of_float (float_mul (0, 0) tax_rate) = 0"
  by (simp add: float_mul_def tax_rate_def round_to_double_def Let_def py_int_of_float_def)

lemma tax_top_values:
  "py_int_of_float (float_mul (5254199565265579, 0) tax_rate) = 420335965221246"
  "py_int_of_float (float_mul (5254199565265580, 0) tax_rate) = 420335965221246"
  "py_int_of_float (float_mul (5254199565265581, 0) tax_rate) = 420335965221246"
  "py_int_of_float (float_mul (5254199565265582, 0) tax_rate) = 420335965221246"
  "py_int_of_float (float_mul (5254199565265583, 0) tax_rate) = 420335965221246"
  "py_int_of_float (float_mul (5254199565265584, 0) tax_rate) = 420335965221246"
  "py_int_of_float (float_mul (5254199565265585, 0) tax_rate) = 420335965221246"
  "py_int_of_float (float_mul (5254199565265586, 0) tax_rate) = 420335965221246"
  by code_simp+

lemma tax_nonneg_top:
  assumes "0 < n" and "n \<le> 5254199565265586"
  shows "py_int_of_float (float_mul (n, 0) tax_rate) = n * 8 div 100"
proof (cases "3 * n < 7 * 2 ^ 51")
  case True
  with assms(1) show ?thesis by (rule tax_nonneg)
next
  case False
  have "(2::int) ^ 51 = 2251799813685248"
    by simp
  with False assms(2) have "n = 5254199565265579 \<or> n = 5254199565265580 \<or>
      n = 5254199565265581 \<or> n = 5254199565265582 \<or> n = 5254199565265583 \<or>
      n = 5254199565265584 \<or> n = 5254199565265585 \<or> n = 5254199565265586"
    by arith
  then show ?thesis
    using tax_top_values by (elim disjE) simp_all
qed

lemma tax_exact:
  assumes "\<bar>s\<bar> \<le> 5254199565265586"
  shows "py_int_of_float (float_mul (s, 0) tax_rate) = sgn s * (\<bar>s\<bar> * 8 div 100)"
proof -
  consider "s = 0" | "0 < s" | "s < 0" by linarith
  then show ?thesis
  proof cases
    case 1
    then show ?thesis by (simp add: tax_zero)
  next
    case 2
    with assms tax_nonneg_top [of s] show ?thesis by simp
  next
    case 3
    with assms have "py_int_of_float (float_mul (- s, 0) tax_rate) = (- s) * 8 div 100"
      by (intro tax_nonneg_top) simp_all
    moreover have "float_mul (s, 0) tax_rate =
        (case float_mul (- s, 0) tax_rate of (m', e') \<Rightarrow> (- m', e'))"
      using round_to_double_uminus [of "- (s * 5764607523034235)" "- 56"]
      by (simp add: float_mul_def tax_rate_def)
    ultimately show ?thesis
      using 3 by (cases "float_mul (- s, 0) tax_rate") (simp add: py_int_of_float_uminus)
  qed
qed

lemma float_in_range:
  assumes "\<bar>s\<bar> \<le> 5254199565265586"
  shows "py_float_of_int s = Inr (s, 0)"
  using assms by (intro py_float_of_int_exact) simp

lemma new_order_sel:
  "order_id (new_order E od u cn s t tot) = uuid4 E 1"
  "order_items (new_order E od u cn s t tot) = oc_items od"
  "order_subtotal (new_order E od u cn s t tot) = s"
  "order_tax_amount (new_order E od u cn s t tot) = t"
  "order_total_amount (new_order E od u cn s t tot) = tot"
  "order_payment_status (new_order E od u cn s t tot) = ''pending''"
  by (simp_all add: new_order_def)

lemma create_order_Inr:
  assumes "py_float_of_int (sum_list (map item_total_price (oc_items od))) = Inr x"
  shows "create_order E od u D =
    (Inr (new_order E od u (find_customer_name (oc_customer_id od) (customers D))
            (sum_list (map item_total_price (oc_items od)))
            (py_int_of_float (float_mul x tax_rate))
            (sum_list (map item_total_price (oc_items od))
              + py_int_of_float (float_mul x tax_rate) - oc_discount_amount od)),
     update_inventory E (uuid4 E 1) (user_id u) 0 (oc_items od)
       (D\<lparr>orders := insert_one
           (new_order E od u (find_customer_name (oc_customer_id od) (customers D))
            (sum_list (map item_total_price (oc_items od)))
            (py_int_of_float (float_mul x tax_rate))
            (sum_list (map item_total_price (oc_items od))
              + py_int_of_float (float_mul x tax_rate) - oc_discount_amount od))
           (orders D)\<rparr>))"
  unfolding create_order_def Let_def assms by (simp only: sum.case new_order_sel)

lemma create_order_Inr_cases:
  assumes "create_order E od u D = (Inr order, D')"
  shows "\<exists>x. py_float_of_int (sum_list (map item_total_price (oc_items od))) = Inr x"
proof (cases "py_float_of_int (sum_list (map item_total_price (oc_items od)))")
  case (Inl e)
  then have "create_order E od u D = (Inl e, D)"
    by (simp add: create_order_def)
  with assms show ?thesis by simp
next
  case (Inr x)
  then show ?thesis by blast
qed

section \<open>Order totals\<close>

text \<open>
  Claim C1, as amended. Whenever \<open>create_order\<close> returns an order, its subtotal is the sum
  of the items' \<open>total_price\<close> and its total is subtotal plus tax minus discount, for every
  cart. For every cart whose subtotal \<open>s\<close> satisfies \<open>\<bar>s\<bar> \<le> 5254199565265586\<close>,
  \<open>create_order\<close> does return an order, and its tax is \<open>\<bar>s\<bar> * 8 / 100\<close> rounded down, with
  the sign of \<open>s\<close>: the exact product truncated toward zero, which is the floor of
  \<open>s * 0.08\<close> when \<open>s\<close> is not negative. In this range the binary64 product of the code
  never changes the truncated result.
\<close>

theorem create_order_totals:
  "(\<forall>order D'. create_order E order_data current_user D = (Inr order, D') \<longrightarrow>
      order_subtotal order = sum_list (map item_total_price (oc_items order_data)) \<and>
      order_total_amount order =
        order_subtotal order + order_tax_amount order - oc_discount_amount order_data) \<and>
   (\<bar>sum_list (map item_total_price (oc_items order_data))\<bar> \<le> 5254199565265586 \<longrightarrow>
      (\<exists>order D'. create_order E order_data current_user D = (Inr order, D') \<and>
         order_tax_amount order =
           sgn (order_subtotal order) * (\<bar>order_subtotal order\<bar> * 8 div 100) \<and>
         (0 \<le> order_subtotal order \<longrightarrow>
            order_tax_amount order = spec_tax_amount (order_subtotal order))))"
proof -
  let ?s = "sum_list (map item_total_price (oc_items order_data))"
  let ?cn = "find_customer_name (oc_customer_id order_data) (customers D)"
  have A: "\<forall>order D'. create_order E order_data current_user D = (Inr order, D') \<longrightarrow>
      order_subtotal order = ?s \<and>
      order_total_amount order =
        order_subtotal order + order_tax_amount order - oc_discount_amount order_data"
  proof (intro allI impI)
    fix order D'
    assume c: "create_order E order_data current_user D = (Inr order, D')"
    from create_order_Inr_cases [OF c] obtain x where x: "py_float_of_int ?s = Inr x" ..
    define t where "t = py_int_of_float (float_mul x tax_rate)"
    from c [unfolded create_order_Inr [OF x]]
    have o: "order = new_order E order_data current_user ?cn ?s t
        (?s + t - oc_discount_amount order_data)"
      unfolding t_def by simp
    show "order_subtotal order = ?s \<and>
      order_total_amount order =
        order_subtotal order + order_tax_amount order - oc_discount_amount order_data"
      unfolding o by (simp only: new_order_sel simp_thms)
  qed
  have B: "\<bar>?s\<bar> \<le> 5254199565265586 \<longrightarrow>
      (\<exists>order D'. create_order E order_data current_user D = (Inr order, D') \<and>
         order_tax_amount order =
           sgn (order_subtotal order) * (\<bar>order_subtotal order\<bar> * 8 div 100) \<and>
         (0 \<le> order_subtotal order \<longrightarrow>
            order_tax_amount order = spec_tax_amount (order_subtotal order)))"
  proof
    assume r: "\<bar>?s\<bar> \<le> 5254199565265586"
    let ?t = "py_int_of_float (float_mul (?s, 0) tax_rate)"
    let ?o = "new_order E order_data current_user ?cn ?s ?t
        (?s + ?t - oc_discount_amount order_data)"
    have t: "?t = sgn ?s * (\<bar>?s\<bar> * 8 div 100)"
      using r by (rule tax_exact)
    have fl: "0 \<le> ?s \<Longrightarrow> ?t = spec_tax_amount ?s"
      unfolding t by (cases "?s = 0") (simp_all add: spec_tax_amount_div sgn_if)
    have sub: "order_subtotal ?o = ?s"
      by (simp only: new_order_sel)
    have tax: "order_tax_amount ?o =
        sgn (order_subtotal ?o) * (\<bar>order_subtotal ?o\<bar> * 8 div 100)"
      unfolding sub by (simp only: new_order_sel t)
    have flo: "0 \<le> order_subtotal ?o \<longrightarrow>
        order_tax_amount ?o = spec_tax_amount (order_subtotal ?o)"
      unfolding sub using fl by (simp only: new_order_sel) blast
    show "\<exists>order D'. create_order E order_data current_user D = (Inr order, D') \<and>
         order_tax_amount order =
           sgn (order_subtotal order) * (\<bar>order_subtotal order\<bar> * 8 div 100) \<and>
         (0 \<le> order_subtotal order \<longrightarrow>
            order_tax_amount order = spec_tax_amount (order_subtotal order))"
      unfolding create_order_Inr [OF float_in_range [OF r]]
      by (rule exI, rule exI, rule conjI, rule refl) (intro conjI tax flo)
  qed
  show ?thesis
    by (rule conjI [OF A B])
qed

text \<open>
  The specification's own example: one line of total price 700, no discount, gives
  subtotal 700, tax 56 and total 756.
\<close>

theorem create_order_totals_witness:
  "\<bar>sum_list (map item_total_price
        (oc_items (sample_order_data [sample_item ''P1'' 2 700])))\<bar> \<le> (5254199565265586 :: int) \<and>
   (\<exists>order D'.
      create_order sample_env (sample_order_data [sample_item ''P1'' 2 700]) sample_user
        (sample_db []) = (Inr order, D') \<and>
      order_subtotal order = 700 \<and> order_tax_amount order = 56 \<and>
      order_tax_amount order = spec_tax_amount 700 \<and> order_total_amount order = 756)"
proof -
  let ?od = "sample_order_data [sample_item ''P1'' 2 700]"
  have s: "sum_list (map item_total_price (oc_items ?od)) = 700"
    by (simp add: sample_order_data_def sample_item_def)
  have h: "\<bar>sum_list (map item_total_price (oc_items ?od))\<bar> \<le> (5254199565265586 :: int)"
    unfolding s by simp
  note T = create_order_totals [of sample_env ?od sample_user "sample_db []"]
  from T [THEN conjunct2, rule_format, OF h]
  obtain order D' where
    c: "create_order sample_env ?od sample_user (sample_db []) = (Inr order, D')" and
    tax: "order_tax_amount order =
      sgn (order_subtotal order) * (\<bar>order_subtotal order\<bar> * 8 div 100)" and
    fl: "0 \<le> order_subtotal order \<longrightarrow>
      order_tax_amount order = spec_tax_amount (order_subtotal order)"
    by blast
  from T [THEN conjunct1, rule_format, OF c]
  have sub: "order_subtotal order = sum_list (map item_total_price (oc_items ?od))" and
    tot: "order_total_amount order =
      order_subtotal order + order_tax_amount order - oc_discount_amount ?od"
    by blast+
  have s700: "order_subtotal order = 700"
    using sub s by simp
  have t56: "order_tax_amount order = 56"
    using tax unfolding s700 by simp
  have tf: "order_tax_amount order = spec_tax_amount 700"
    using fl unfolding s700 by simp
  have "oc_discount_amount ?od = 0"
    by (simp add: sample_order_data_def)
  with tot s700 t56 have t756: "order_total_amount order = 756"
    by simp
  from h c s700 t56 tf t756 show ?thesis
    by blast
qed

text \<open>
  Claim C1 as the specification states it fails for a negative subtotal: \<open>int()\<close>
  truncates toward zero and the floor rounds down. A cart whose only line has total
  price \<open>-1\<close> gets tax 0, and the floor of \<open>-0.08\<close> is \<open>-1\<close>.
\<close>

theorem create_order_tax_floor_counterexample:
  "map_sum id order_tax_amount
     (fst (create_order sample_env (sample_order_data [sample_item ''P1'' 1 (- 1)]) sample_user
            (sample_db []))) = Inr 0 \<and>
   map_sum id (spec_tax_amount \<circ> order_subtotal)
     (fst (create_order sample_env (sample_order_data [sample_item ''P1'' 1 (- 1)]) sample_user
            (sample_db []))) = Inr (- 1)"
proof -
  let ?od = "sample_order_data [sample_item ''P1'' 1 (- 1)]"
  have s: "sum_list (map item_total_price (oc_items ?od)) = - 1"
    by (simp add: sample_order_data_def sample_item_def)
  have f: "py_float_of_int (sum_list (map item_total_price (oc_items ?od))) = Inr (- 1, 0)"
    unfolding s by (rule py_float_of_int_exact) simp
  have t: "py_int_of_float (float_mul (- 1, 0) tax_rate) = 0"
    using tax_exact [of "- 1"] by simp
  have sp: "spec_tax_amount (- 1) = - 1"
    by (simp add: spec_tax_amount_div)
  show ?thesis
    unfolding create_order_Inr [OF f] by (simp add: new_order_sel s t sp)
qed

text \<open>
  The range of the tax conjunct ends where the first subtotal fails: at
  \<open>5254199565265587\<close> the binary64 product is rounded up across an integer, and the tax
  of the code is one more than the floor (and than the truncated exact product).
\<close>

lemma create_order_tax_drift:
  "map_sum id order_tax_amount
     (fst (create_order sample_env (sample_order_data [sample_item ''P1'' 1 5254199565265587])
            sample_user (sample_db []))) = Inr 420335965221247 \<and>
   spec_tax_amount 5254199565265587 = 420335965221246"
proof -
  let ?od = "sample_order_data [sample_item ''P1'' 1 5254199565265587]"
  have s: "sum_list (map item_total_price (oc_items ?od)) = 5254199565265587"
    by (simp add: sample_order_data_def sample_item_def)
  have f: "py_float_of_int (sum_list (map item_total_price (oc_items ?od)))
      = Inr (5254199565265587, 0)"
    unfolding s by (rule py_float_of_int_exact) simp
  have t: "py_int_of_float (float_mul (5254199565265587, 0) tax_rate) = 420335965221247"
    by code_simp
  have sp: "spec_tax_amount 5254199565265587 = 420335965221246"
    by (simp add: spec_tax_amount_div)
  show ?thesis
    unfolding create_order_Inr [OF f] by (simp add: new_order_sel s t sp)
qed

section \<open>The empty cart\<close>

text \<open>
  Claim C9. \<open>create_order\<close> with an empty cart does not fail: it inserts an order with
  subtotal 0, tax 0 and total \<open>- discount_amount\<close>, in status pending, and the store
  changes in nothing else: no product is touched and no movement is inserted.
\<close>

theorem create_order_empty_cart:
  "\<exists>order.
     create_order E (order_data\<lparr>oc_items := []\<rparr>) current_user D =
       (Inr order, D\<lparr>orders := orders D @ [order]\<rparr>) \<and>
     order_items order = [] \<and> order_subtotal order = 0 \<and> order_tax_amount order = 0 \<and>
     order_total_amount order = - oc_discount_amount order_data \<and>
     order_payment_status order = ''pending''"
proof -
  have f: "py_float_of_int (sum_list (map item_total_price
      (oc_items (order_data\<lparr>oc_items := []\<rparr>)))) = Inr (0, 0)"
    by (simp add: py_float_of_int_exact)
  show ?thesis
    unfolding create_order_Inr [OF f]
    by (rule exI, rule conjI, simp add: insert_one_def new_order_sel)
      (simp add: new_order_sel tax_zero)
qed

lemma length_update_one: "length (update_one P f xs) = length xs"
  by (induction xs) simp_all

lemma update_one_nth:
  "i < length xs \<Longrightarrow>
   update_one P f xs ! i = (if P (xs ! i) \<and> (\<forall>j<i. \<not> P (xs ! j)) then f (xs ! i) else xs ! i)"
proof (induction xs arbitrary: i)
  case Nil
  then show ?case by simp
next
  case (Cons x xs)
  show ?case
  proof (cases i)
    case 0
    then show ?thesis by simp
  next
    case (Suc n)
    with Cons.prems have n: "n < length xs" by simp
    have all: "(\<forall>j<Suc n. \<not> P ((x # xs) ! j)) \<longleftrightarrow> \<not> P x \<and> (\<forall>j<n. \<not> P (xs ! j))"
      by (auto simp: less_Suc_eq_0_disj)
    show ?thesis
      unfolding Suc all using Cons.IH [OF n] by auto
  qed
qed

lemma update_inventory_fixed:
  "users (update_inventory E oid uid k items D) = users D"
  "customers (update_inventory E oid uid k items D) = customers D"
  "orders (update_inventory E oid uid k items D) = orders D"
  by (induction items arbitrary: k D) (simp_all add: Let_def)

lemma update_inventory_movements:
  "inventory_movements (update_inventory E oid uid k items D) =
   inventory_movements D @
     map (\<lambda>i. sale_movement E oid uid (k + i) (items ! i)) [0..<length items]"
proof (induction items arbitrary: k D)
  case Nil
  then show ?case by simp
next
  case (Cons item rest)
  have "map (\<lambda>i. sale_movement E oid uid (k + i) ((item # rest) ! i)) [0..<length (item # rest)]
      = sale_movement E oid uid k item #
        map (\<lambda>i. sale_movement E oid uid (Suc k + i) (rest ! i)) [0..<length rest]"
    by (simp add: map_upt_Suc del: upt_Suc)
  then show ?case
    by (simp add: Cons.IH Let_def insert_one_def del: upt_Suc)
qed

lemma update_inventory_products_length:
  "length (products (update_inventory E oid uid k items D)) = length (products D)"
  by (induction items arbitrary: k D) (simp_all add: Let_def length_update_one)

lemma update_inventory_product_ids:
  "j < length (products D) \<Longrightarrow>
   prod_id (products (update_inventory E oid uid k items D) ! j) = prod_id (products D ! j)"
proof (induction items arbitrary: k D)
  case Nil
  then show ?case by simp
next
  case (Cons item rest)
  then show ?case
    by (simp add: Let_def length_update_one update_one_nth inc_stock_quantity_def)
qed

lemma ordered_quantity_Cons:
  "ordered_quantity pid (item # rest) =
   (if item_product_id item = pid then item_quantity item else 0) + ordered_quantity pid rest"
  by (simp add: ordered_quantity_def)

lemma inc_stock_quantity_0: "inc_stock_quantity 0 p = p"
  by (simp add: inc_stock_quantity_def)

lemma inc_stock_quantity_twice:
  "inc_stock_quantity a (inc_stock_quantity b p) = inc_stock_quantity (a + b) p"
  by (simp add: inc_stock_quantity_def)

lemma update_inventory_stock:
  "j < length (products D) \<Longrightarrow>
   products (update_inventory E oid uid k items D) ! j =
   inc_stock_quantity
     (- (if \<forall>i<j. prod_id (products D ! i) \<noteq> prod_id (products D ! j)
         then ordered_quantity (prod_id (products D ! j)) items else 0))
     (products D ! j)"
proof (induction items arbitrary: k D)
  case Nil
  then show ?case
    by (simp add: ordered_quantity_def inc_stock_quantity_0)
next
  case (Cons item rest)
  let ?ps = "products D"
  let ?pid = "item_product_id item"
  let ?q = "item_quantity item"
  let ?ps1 = "update_one (\<lambda>p. prod_id p = ?pid) (inc_stock_quantity (- ?q)) ?ps"
  define D2 where "D2 =
    (D\<lparr>products := ?ps1\<rparr>)\<lparr>inventory_movements :=
       insert_one (sale_movement E oid uid k item)
         (inventory_movements (D\<lparr>products := ?ps1\<rparr>))\<rparr>"
  have step: "update_inventory E oid uid k (item # rest) D =
      update_inventory E oid uid (Suc k) rest D2"
    by (simp add: D2_def Let_def)
  have p2: "products D2 = ?ps1"
    by (simp add: D2_def)
  from Cons.prems have len: "j < length (products D2)"
    by (simp add: p2 length_update_one)
  have ids: "\<And>i. i < length ?ps \<Longrightarrow> prod_id (?ps1 ! i) = prod_id (?ps ! i)"
    by (simp add: update_one_nth inc_stock_quantity_def)
  have idj: "prod_id (?ps1 ! j) = prod_id (?ps ! j)"
    by (rule ids [OF Cons.prems])
  have first_eq: "(\<forall>i<j. prod_id (?ps1 ! i) \<noteq> prod_id (?ps ! j)) \<longleftrightarrow>
      (\<forall>i<j. prod_id (?ps ! i) \<noteq> prod_id (?ps ! j))"
  proof -
    have a: "\<And>i. i < j \<Longrightarrow> prod_id (?ps1 ! i) = prod_id (?ps ! i)"
      using Cons.prems by (intro ids) linarith
    show ?thesis
      using a by auto
  qed
  have nth1: "?ps1 ! j =
      (if prod_id (?ps ! j) = ?pid \<and> (\<forall>i<j. prod_id (?ps ! i) \<noteq> ?pid)
       then inc_stock_quantity (- ?q) (?ps ! j) else ?ps ! j)"
    using Cons.prems by (simp add: update_one_nth)
  have IH: "products (update_inventory E oid uid (Suc k) rest D2) ! j =
      inc_stock_quantity
        (- (if \<forall>i<j. prod_id (?ps ! i) \<noteq> prod_id (?ps ! j)
            then ordered_quantity (prod_id (?ps ! j)) rest else 0))
        (?ps1 ! j)"
    using Cons.IH [OF len, of "Suc k"] by (simp only: p2 idj first_eq)
  show ?case
    unfolding step IH nth1
    by (auto simp: ordered_quantity_Cons inc_stock_quantity_twice algebra_simps)
qed

section \<open>Inventory\<close>

text \<open>
  Claim C2. When \<open>create_order\<close> returns an order for a cart of \<open>N\<close> line items, the
  order is appended to the orders, and exactly \<open>N\<close> movements are appended to the
  inventory movements, one per line item and in the order of the cart: each refers to
  the new order, has type \<open>sale\<close>, the product of its line item and the negated
  quantity of its line item. No product is added or removed, and the stock of every
  product is decremented by the quantity the cart orders of it, summed over the line
  items that name it. (Should several products share an id, \<open>update_one\<close> changes the
  first of them and leaves the others as they are.)
\<close>

theorem create_order_inventory:
  assumes "create_order E order_data current_user D = (Inr order, D')"
  shows "orders D' = orders D @ [order] \<and>
    (\<exists>ms. inventory_movements D' = inventory_movements D @ ms \<and>
       length ms = length (oc_items order_data) \<and>
       (\<forall>i<length (oc_items order_data).
          mv_reference_id (ms ! i) = Some (order_id order) \<and>
          mv_movement_type (ms ! i) = ''sale'' \<and>
          mv_product_id (ms ! i) = item_product_id (oc_items order_data ! i) \<and>
          mv_quantity (ms ! i) = - item_quantity (oc_items order_data ! i))) \<and>
    length (products D') = length (products D) \<and>
    (\<forall>j<length (products D).
       products D' ! j =
       (products D ! j)\<lparr>prod_stock_quantity :=
          prod_stock_quantity (products D ! j) -
          (if \<forall>i<j. prod_id (products D ! i) \<noteq> prod_id (products D ! j)
           then ordered_quantity (prod_id (products D ! j)) (oc_items order_data)
           else 0)\<rparr>)"
proof -
  let ?items = "oc_items order_data"
  from create_order_Inr_cases [OF assms] obtain x where
    x: "py_float_of_int (sum_list (map item_total_price ?items)) = Inr x" ..
  define D1 where "D1 = D\<lparr>orders := insert_one order (orders D)\<rparr>"
  from assms have oid: "order_id order = uuid4 E 1"
    unfolding create_order_Inr [OF x] by (auto simp: new_order_sel)
  from assms have D': "D' = update_inventory E (uuid4 E 1) (user_id current_user) 0 ?items D1"
    unfolding create_order_Inr [OF x] D1_def by auto
  have p1: "products D1 = products D" and m1: "inventory_movements D1 = inventory_movements D"
    and o1: "orders D1 = orders D @ [order]"
    by (simp_all add: D1_def insert_one_def)
  let ?ms = "map (\<lambda>i. sale_movement E (uuid4 E 1) (user_id current_user) (0 + i) (?items ! i))
      [0..<length ?items]"
  have a: "orders D' = orders D @ [order]"
    unfolding D' by (simp add: update_inventory_fixed o1)
  have b: "inventory_movements D' = inventory_movements D @ ?ms"
    unfolding D' update_inventory_movements m1 ..
  have c: "length ?ms = length ?items"
    by simp
  have d: "\<forall>i<length ?items.
      mv_reference_id (?ms ! i) = Some (order_id order) \<and>
      mv_movement_type (?ms ! i) = ''sale'' \<and>
      mv_product_id (?ms ! i) = item_product_id (?items ! i) \<and>
      mv_quantity (?ms ! i) = - item_quantity (?items ! i)"
    by (simp add: sale_movement_def oid)
  have e: "length (products D') = length (products D)"
    unfolding D' by (simp add: update_inventory_products_length p1)
  have f: "\<forall>j<length (products D).
      products D' ! j =
      (products D ! j)\<lparr>prod_stock_quantity :=
         prod_stock_quantity (products D ! j) -
         (if \<forall>i<j. prod_id (products D ! i) \<noteq> prod_id (products D ! j)
          then ordered_quantity (prod_id (products D ! j)) ?items
          else 0)\<rparr>"
  proof (intro allI impI)
    fix j assume "j < length (products D)"
    then have "j < length (products D1)" by (simp add: p1)
    from update_inventory_stock [OF this, of E "uuid4 E 1" "user_id current_user" 0 ?items]
    show "products D' ! j =
      (products D ! j)\<lparr>prod_stock_quantity :=
         prod_stock_quantity (products D ! j) -
         (if \<forall>i<j. prod_id (products D ! i) \<noteq> prod_id (products D ! j)
          then ordered_quantity (prod_id (products D ! j)) ?items
          else 0)\<rparr>"
      unfolding D' p1 by (simp add: inc_stock_quantity_def)
  qed
  from a b c d e f show ?thesis by blast
qed

text \<open>
  A cart of one line, 10 units of product P1, on a store with 100 units of P1 and 50 of
  P2: one movement of quantity \<open>-10\<close>, and the stocks become 90 and 50.
\<close>

theorem create_order_inventory_witness:
  "\<exists>order D'.
     create_order sample_env (sample_order_data [sample_item ''P1'' 10 3500]) sample_user
       (sample_db []) = (Inr order, D') \<and>
     orders D' = [order] \<and>
     length (inventory_movements D') = 1 \<and>
     mv_reference_id (inventory_movements D' ! 0) = Some (order_id order) \<and>
     mv_movement_type (inventory_movements D' ! 0) = ''sale'' \<and>
     mv_product_id (inventory_movements D' ! 0) = ''P1'' \<and>
     mv_quantity (inventory_movements D' ! 0) = - 10 \<and>
     length (products D') = 2 \<and>
     prod_stock_quantity (products D' ! 0) = 90 \<and>
     prod_stock_quantity (products D' ! 1) = 50"
proof -
  let ?od = "sample_order_data [sample_item ''P1'' 10 3500]"
  let ?D = "sample_db []"
  have items: "oc_items ?od = [sample_item ''P1'' 10 3500]"
    by (simp add: sample_order_data_def)
  have f: "py_float_of_int (sum_list (map item_total_price (oc_items ?od))) = Inr (3500, 0)"
    unfolding items by (simp add: sample_item_def py_float_of_int_exact)
  obtain order D' where
    c: "create_order sample_env ?od sample_user ?D = (Inr order, D')"
    using create_order_Inr [OF f, of sample_env sample_user ?D] by (rule that)
  from create_order_inventory [OF c] obtain ms where
    o: "orders D' = orders ?D @ [order]" and
    m: "inventory_movements D' = inventory_movements ?D @ ms" and
    lm: "length ms = length (oc_items ?od)" and
    q: "\<forall>i<length (oc_items ?od).
          mv_reference_id (ms ! i) = Some (order_id order) \<and>
          mv_movement_type (ms ! i) = ''sale'' \<and>
          mv_product_id (ms ! i) = item_product_id (oc_items ?od ! i) \<and>
          mv_quantity (ms ! i) = - item_quantity (oc_items ?od ! i)" and
    lp: "length (products D') = length (products ?D)" and
    p: "\<forall>j<length (products ?D).
          products D' ! j =
          (products ?D ! j)\<lparr>prod_stock_quantity :=
             prod_stock_quantity (products ?D ! j) -
             (if \<forall>i<j. prod_id (products ?D ! i) \<noteq> prod_id (products ?D ! j)
              then ordered_quantity (prod_id (products ?D ! j)) (oc_items ?od)
              else 0)\<rparr>"
    by blast
  have ps: "products ?D = [sample_product ''P1'' 100, sample_product ''P2'' 50]"
    and ms0: "inventory_movements ?D = []" and os0: "orders ?D = []"
    by (simp_all add: sample_db_def)
  have o': "orders D' = [order]"
    using o by (simp add: os0)
  have m': "inventory_movements D' = ms"
    using m by (simp add: ms0)
  have lm': "length ms = 1"
    using lm by (simp add: items)
  have q0: "mv_reference_id (ms ! 0) = Some (order_id order) \<and>
      mv_movement_type (ms ! 0) = ''sale'' \<and> mv_product_id (ms ! 0) = ''P1'' \<and>
      mv_quantity (ms ! 0) = - 10"
    using q [unfolded items, rule_format, of 0] by (simp add: sample_item_def)
  have lp': "length (products D') = 2"
    using lp by (simp add: ps)
  have p0: "prod_stock_quantity (products D' ! 0) = 90"
    using p [unfolded ps items, rule_format, of 0]
    by (simp add: sample_product_def sample_item_def ordered_quantity_def)
  have p1: "prod_stock_quantity (products D' ! 1) = 50"
    using p [unfolded ps items, rule_format, of 1]
    by (simp add: sample_product_def sample_item_def ordered_quantity_def)
  from c o' lm' [folded m'] q0 [folded m'] lp' p0 p1 show ?thesis
    by blast
qed


lemma update_one_find_Some:
  "find_one P xs = Some c \<Longrightarrow>
   \<exists>j<length xs. xs ! j = c \<and> (\<forall>i<j. \<not> P (xs ! i)) \<and> update_one P f xs = xs[j := f c]"
proof (induction xs)
  case Nil
  then show ?case by (simp add: find_one_def)
next
  case (Cons x xs)
  show ?case
  proof (cases "P x")
    case True
    with Cons.prems have "x = c" by (simp add: find_one_def)
    with True have "0 < length (x # xs) \<and> (x # xs) ! 0 = c \<and> (\<forall>i<0. \<not> P ((x # xs) ! i)) \<and>
        update_one P f (x # xs) = (x # xs)[0 := f c]"
      by simp
    then show ?thesis by blast
  next
    case False
    with Cons.prems have "find_one P xs = Some c" by (simp add: find_one_def)
    from Cons.IH [OF this] obtain j where j: "j < length xs" "xs ! j = c"
      "\<forall>i<j. \<not> P (xs ! i)" "update_one P f xs = xs[j := f c]"
      by blast
    from j(3) False have "\<forall>i<Suc j. \<not> P ((x # xs) ! i)"
      by (auto simp: less_Suc_eq_0_disj)
    with j False have "Suc j < length (x # xs) \<and> (x # xs) ! Suc j = c \<and>
        (\<forall>i<Suc j. \<not> P ((x # xs) ! i)) \<and>
        update_one P f (x # xs) = (x # xs)[Suc j := f c]"
      by simp
    then show ?thesis by blast
  qed
qed

lemma update_one_find_None: "find_one P xs = None \<Longrightarrow> update_one P f xs = xs"
  by (induction xs) (simp_all add: find_one_def split: if_splits)

lemma spec_loyalty_points_div: "spec_loyalty_points amount = amount div 100"
proof -
  have "rat_of_int amount / 100 = rat_of_int amount / rat_of_int 100"
    by simp
  then show ?thesis
    unfolding spec_loyalty_points_def by (simp only: floor_divide_of_int_eq)
qed

lemma process_payment_success:
  assumes "process_payment E pd D = (Inr resp, D')"
  shows "\<exists>order. find_one (\<lambda>doc. order_id doc = pay_order_id pd) (orders D) = Some order \<and>
    order_payment_status order \<noteq> ''completed'' \<and>
    (pay_payment_method pd = ''cash'' \<longrightarrow>
       cash_accepted (pay_cash_received pd) (pay_amount pd)) \<and>
    orders D' = update_one (\<lambda>doc. order_id doc = pay_order_id pd)
       (set_payment ''completed'' (''pay_'' @ take 8 (uuid4 E 0)) (now E 0)) (orders D) \<and>
    customers D' =
      (if truthy_str (order_customer_id order)
       then update_one (\<lambda>c. Some (cust_id c) = order_customer_id order)
              (inc_spent (pay_amount pd)) (customers D)
       else customers D) \<and>
    users D' = users D \<and> products D' = products D \<and>
    inventory_movements D' = inventory_movements D \<and>
    resp_payment_id resp = ''pay_'' @ take 8 (uuid4 E 0) \<and>
    resp_status resp = ''completed'' \<and>
    resp_amount resp = pay_amount pd \<and>
    resp_order_id resp = pay_order_id pd \<and>
    resp_change_due resp =
      (if pay_payment_method pd = ''cash'' \<and> truthy_int (pay_cash_received pd)
       then map_option (\<lambda>c. c - pay_amount pd) (pay_cash_received pd) else None)"
proof (cases "find_one (\<lambda>doc. order_id doc = pay_order_id pd) (orders D)")
  case None
  with assms show ?thesis by (simp add: process_payment_def)
next
  case (Some order)
  show ?thesis
  proof (cases "order_payment_status order = ''completed'' \<or>
      (pay_payment_method pd = ''cash'' \<and>
       \<not> cash_accepted (pay_cash_received pd) (pay_amount pd))")
    case True
    with assms Some have False
      by (auto simp: process_payment_def split: if_splits)
    then show ?thesis ..
  next
    case False
    with assms Some have r: "resp =
        \<lparr>resp_payment_id = ''pay_'' @ take 8 (uuid4 E 0), resp_status = ''completed'',
         resp_amount = pay_amount pd, resp_order_id = pay_order_id pd,
         resp_change_due =
           (if pay_payment_method pd = ''cash'' \<and> truthy_int (pay_cash_received pd)
            then map_option (\<lambda>c. c - pay_amount pd) (pay_cash_received pd) else None)\<rparr>"
      and d: "D' =
        (if truthy_str (order_customer_id order)
         then (D\<lparr>orders := update_one (\<lambda>doc. order_id doc = pay_order_id pd)
                 (set_payment ''completed'' (''pay_'' @ take 8 (uuid4 E 0)) (now E 0))
                 (orders D)\<rparr>)
               \<lparr>customers := update_one (\<lambda>c. Some (cust_id c) = order_customer_id order)
                 (inc_spent (pay_amount pd)) (customers D)\<rparr>
         else D\<lparr>orders := update_one (\<lambda>doc. order_id doc = pay_order_id pd)
                 (set_payment ''completed'' (''pay_'' @ take 8 (uuid4 E 0)) (now E 0))
                 (orders D)\<rparr>)"
      by (auto simp: process_payment_def Let_def)
    from False Some show ?thesis
      unfolding r d by simp
  qed
qed


section \<open>Payments\<close>

text \<open>
  Claim C3. A payment request against an order whose status is \<open>completed\<close> fails with
  the 400 response \<open>Order already paid\<close>, whatever the payment method, the amount and
  the cash received, and the store, hence the order, is left as it was. The order a
  request is against is the one \<open>find_one\<close> returns for its \<open>order_id\<close>.
\<close>

theorem process_payment_already_paid:
  assumes "find_one (\<lambda>doc. order_id doc = pay_order_id payment_data) (orders D) = Some order"
    and "order_payment_status order = ''completed''"
  shows "process_payment E payment_data D = (Inl (HTTPException 400 ''Order already paid''), D)"
  using assms by (simp add: process_payment_def)

text \<open>A card payment and a sufficient cash payment against a completed order.\<close>

theorem process_payment_already_paid_witness:
  "find_one (\<lambda>doc. order_id doc = pay_order_id (sample_payment ''o-1'' ''cash'' 500 (Some 600)))
     (orders (sample_db [sample_order ''o-1'' (Some ''c-1'') ''completed'' 5]))
     = Some (sample_order ''o-1'' (Some ''c-1'') ''completed'' 5) \<and>
   order_payment_status (sample_order ''o-1'' (Some ''c-1'') ''completed'' 5) = ''completed'' \<and>
   process_payment sample_env (sample_payment ''o-1'' ''cash'' 500 (Some 600))
     (sample_db [sample_order ''o-1'' (Some ''c-1'') ''completed'' 5])
     = (Inl (HTTPException 400 ''Order already paid''),
        sample_db [sample_order ''o-1'' (Some ''c-1'') ''completed'' 5])"
proof -
  let ?o = "sample_order ''o-1'' (Some ''c-1'') ''completed'' 5"
  let ?pd = "sample_payment ''o-1'' ''cash'' 500 (Some 600)"
  have f: "find_one (\<lambda>doc. order_id doc = pay_order_id ?pd) (orders (sample_db [?o])) = Some ?o"
    by (simp add: find_one_def sample_db_def sample_order_def sample_payment_def)
  have s: "order_payment_status ?o = ''completed''"
    by (simp add: sample_order_def)
  from f s process_payment_already_paid [OF f s, of sample_env] show ?thesis
    by (intro conjI)
qed

text \<open>
  Claim C10. Whenever \<open>process_payment\<close> fails, the store is exactly as before the call:
  every order document, with its status and payment reference, and every customer, with
  total spent and loyalty points. The failures are the three 400/404 responses: order not
  found, order already paid, insufficient cash received.
\<close>

theorem process_payment_failure_no_change:
  assumes "process_payment E payment_data D = (Inl err, D')"
  shows "D' = D \<and>
    (err = HTTPException 404 ''Order not found'' \<or>
     err = HTTPException 400 ''Order already paid'' \<or>
     err = HTTPException 400 ''Insufficient cash received'')"
  using assms
  by (auto simp: process_payment_def Let_def split: option.splits if_splits)

text \<open>The three failures, on a store with one pending and one completed order.\<close>

theorem process_payment_failure_no_change_witness:
  "process_payment sample_env (sample_payment ''o-9'' ''card'' 500 None)
     (sample_db [sample_order ''o-1'' (Some ''c-1'') ''pending'' 5,
                 sample_order ''o-2'' None ''completed'' 6])
     = (Inl (HTTPException 404 ''Order not found''),
        sample_db [sample_order ''o-1'' (Some ''c-1'') ''pending'' 5,
                   sample_order ''o-2'' None ''completed'' 6]) \<and>
   process_payment sample_env (sample_payment ''o-1'' ''cash'' 500 (Some 400))
     (sample_db [sample_order ''o-1'' (Some ''c-1'') ''pending'' 5,
                 sample_order ''o-2'' None ''completed'' 6])
     = (Inl (HTTPException 400 ''Insufficient cash received''),
        sample_db [sample_order ''o-1'' (Some ''c-1'') ''pending'' 5,
                   sample_order ''o-2'' None ''completed'' 6])"
proof -
  let ?D = "sample_db [sample_order ''o-1'' (Some ''c-1'') ''pending'' 5,
                      sample_order ''o-2'' None ''completed'' 6]"
  obtain r1 D1 where c1:
    "process_payment sample_env (sample_payment ''o-9'' ''card'' 500 None) ?D = (r1, D1)"
    by (cases "process_payment sample_env (sample_payment ''o-9'' ''card'' 500 None) ?D")
  then have r1: "r1 = Inl (HTTPException 404 ''Order not found'')"
    by (simp add: process_payment_def find_one_def sample_db_def sample_order_def
        sample_payment_def)
  obtain r2 D2 where c2:
    "process_payment sample_env (sample_payment ''o-1'' ''cash'' 500 (Some 400)) ?D = (r2, D2)"
    by (cases "process_payment sample_env (sample_payment ''o-1'' ''cash'' 500 (Some 400)) ?D")
  then have r2: "r2 = Inl (HTTPException 400 ''Insufficient cash received'')"
    by (simp add: process_payment_def find_one_def sample_db_def sample_order_def
        sample_payment_def cash_accepted_def)
  from process_payment_failure_no_change [OF c1 [unfolded r1]] have d1: "D1 = ?D" ..
  from process_payment_failure_no_change [OF c2 [unfolded r2]] have d2: "D2 = ?D" ..
  from c1 c2 show ?thesis
    unfolding r1 r2 d1 d2 by (rule conjI)
qed

text \<open>
  Claim C6. After a successful payment of an order that carries a non-empty
  \<open>customer_id\<close> for which a customer exists, the (first) customer with that id has its
  total spent incremented by the amount of the payment and its loyalty points by
  \<open>floor (amount / 100)\<close>, and every other customer is as before. After a successful
  payment of an order without customer (\<open>customer_id\<close> absent, or empty), every customer
  is as before.
\<close>

theorem process_payment_customer:
  assumes "process_payment E payment_data D = (Inr response, D')"
    and "find_one (\<lambda>doc. order_id doc = pay_order_id payment_data) (orders D) = Some order"
  shows "(order_customer_id order = Some cid \<and> cid \<noteq> [] \<and>
          find_one (\<lambda>c. cust_id c = cid) (customers D) = Some customer \<longrightarrow>
            (\<exists>j<length (customers D).
               customers D ! j = customer \<and>
               (\<forall>i<j. cust_id (customers D ! i) \<noteq> cid) \<and>
               customers D' = (customers D)[j := customer
                 \<lparr>cust_total_spent := cust_total_spent customer + pay_amount payment_data,
                  cust_loyalty_points := cust_loyalty_points customer +
                    spec_loyalty_points (pay_amount payment_data)\<rparr>])) \<and>
         (\<not> truthy_str (order_customer_id order) \<longrightarrow> customers D' = customers D)"
proof -
  from process_payment_success [OF assms(1)] assms(2)
  have cs: "customers D' =
      (if truthy_str (order_customer_id order)
       then update_one (\<lambda>c. Some (cust_id c) = order_customer_id order)
              (inc_spent (pay_amount payment_data)) (customers D)
       else customers D)"
    by auto
  have A: "order_customer_id order = Some cid \<and> cid \<noteq> [] \<and>
          find_one (\<lambda>c. cust_id c = cid) (customers D) = Some customer \<longrightarrow>
            (\<exists>j<length (customers D).
               customers D ! j = customer \<and>
               (\<forall>i<j. cust_id (customers D ! i) \<noteq> cid) \<and>
               customers D' = (customers D)[j := customer
                 \<lparr>cust_total_spent := cust_total_spent customer + pay_amount payment_data,
                  cust_loyalty_points := cust_loyalty_points customer +
                    spec_loyalty_points (pay_amount payment_data)\<rparr>])"
  proof
    assume h: "order_customer_id order = Some cid \<and> cid \<noteq> [] \<and>
          find_one (\<lambda>c. cust_id c = cid) (customers D) = Some customer"
    then have t: "truthy_str (order_customer_id order)"
      by (simp add: truthy_str_def)
    from h have P: "(\<lambda>c. Some (cust_id c) = order_customer_id order) = (\<lambda>c. cust_id c = cid)"
      by auto
    from h have f: "find_one (\<lambda>c. cust_id c = cid) (customers D) = Some customer"
      by simp
    from update_one_find_Some [OF f, of "inc_spent (pay_amount payment_data)"]
    obtain j where j: "j < length (customers D)" "customers D ! j = customer"
      "\<forall>i<j. cust_id (customers D ! i) \<noteq> cid"
      "update_one (\<lambda>c. cust_id c = cid) (inc_spent (pay_amount payment_data)) (customers D)
         = (customers D)[j := inc_spent (pay_amount payment_data) customer]"
      by blast
    have "customers D' = (customers D)[j := customer
        \<lparr>cust_total_spent := cust_total_spent customer + pay_amount payment_data,
         cust_loyalty_points := cust_loyalty_points customer +
           spec_loyalty_points (pay_amount payment_data)\<rparr>]"
      unfolding cs P using t j(4) by (simp add: inc_spent_def spec_loyalty_points_div)
    with j(1-3) show "\<exists>j<length (customers D).
               customers D ! j = customer \<and>
               (\<forall>i<j. cust_id (customers D ! i) \<noteq> cid) \<and>
               customers D' = (customers D)[j := customer
                 \<lparr>cust_total_spent := cust_total_spent customer + pay_amount payment_data,
                  cust_loyalty_points := cust_loyalty_points customer +
                    spec_loyalty_points (pay_amount payment_data)\<rparr>]"
      by blast
  qed
  have B: "\<not> truthy_str (order_customer_id order) \<longrightarrow> customers D' = customers D"
    unfolding cs by simp
  show ?thesis
    by (rule conjI [OF A B])
qed

text \<open>
  The specification's example: a payment of 1050 on an order of customer c-1, who has
  spent 2000 and holds 5 points, gives 3050 spent and 15 points. The same payment on an
  order without customer leaves the customers as they are.
\<close>

theorem process_payment_customer_witness:
  "(\<exists>response D'.
      process_payment sample_env (sample_payment ''o-1'' ''card'' 1050 None)
        (sample_db [sample_order ''o-1'' (Some ''c-1'') ''pending'' 5,
                    sample_order ''o-2'' None ''pending'' 6]) = (Inr response, D') \<and>
      map cust_total_spent (customers D') = [3050] \<and>
      map cust_loyalty_points (customers D') = [15]) \<and>
   (\<exists>response D'.
      process_payment sample_env (sample_payment ''o-2'' ''card'' 1050 None)
        (sample_db [sample_order ''o-1'' (Some ''c-1'') ''pending'' 5,
                    sample_order ''o-2'' None ''pending'' 6]) = (Inr response, D') \<and>
      customers D' = [sample_customer])"
proof -
  let ?o1 = "sample_order ''o-1'' (Some ''c-1'') ''pending'' 5"
  let ?o2 = "sample_order ''o-2'' None ''pending'' 6"
  let ?D = "sample_db [?o1, ?o2]"
  let ?p1 = "sample_payment ''o-1'' ''card'' 1050 None"
  let ?p2 = "sample_payment ''o-2'' ''card'' 1050 None"
  have cD: "customers ?D = [sample_customer]"
    by (simp add: sample_db_def)
  obtain r1 D1 where c1: "process_payment sample_env ?p1 ?D = (r1, D1)"
    by (cases "process_payment sample_env ?p1 ?D")
  then obtain response1 where r1: "r1 = Inr response1"
    by (cases r1) (simp_all add: process_payment_def find_one_def sample_db_def
        sample_order_def sample_payment_def Let_def)
  have f1: "find_one (\<lambda>doc. order_id doc = pay_order_id ?p1) (orders ?D) = Some ?o1"
    by (simp add: find_one_def sample_db_def sample_order_def sample_payment_def)
  have h1: "order_customer_id ?o1 = Some ''c-1'' \<and> ''c-1'' \<noteq> [] \<and>
      find_one (\<lambda>c. cust_id c = ''c-1'') (customers ?D) = Some sample_customer"
    by (simp add: find_one_def sample_db_def sample_order_def sample_customer_def)
  from process_payment_customer [OF c1 [unfolded r1] f1, THEN conjunct1, rule_format, OF h1]
  obtain j where j: "j < length (customers ?D)" and
    u: "customers D1 = (customers ?D)[j := sample_customer
        \<lparr>cust_total_spent := cust_total_spent sample_customer + pay_amount ?p1,
         cust_loyalty_points := cust_loyalty_points sample_customer +
           spec_loyalty_points (pay_amount ?p1)\<rparr>]"
    by blast
  from j have j0: "j = 0"
    by (simp add: cD)
  have a1: "map cust_total_spent (customers D1) = [3050]"
    unfolding u j0 cD
    by (simp add: sample_customer_def sample_payment_def)
  have b1: "map cust_loyalty_points (customers D1) = [15]"
    unfolding u j0 cD
    by (simp add: sample_customer_def sample_payment_def spec_loyalty_points_div)
  obtain r2 D2 where c2: "process_payment sample_env ?p2 ?D = (r2, D2)"
    by (cases "process_payment sample_env ?p2 ?D")
  then obtain response2 where r2: "r2 = Inr response2"
    by (cases r2) (simp_all add: process_payment_def find_one_def sample_db_def
        sample_order_def sample_payment_def Let_def)
  have f2: "find_one (\<lambda>doc. order_id doc = pay_order_id ?p2) (orders ?D) = Some ?o2"
    by (simp add: find_one_def sample_db_def sample_order_def sample_payment_def)
  have h2: "\<not> truthy_str (order_customer_id ?o2)"
    by (simp add: truthy_str_def sample_order_def)
  from process_payment_customer [OF c2 [unfolded r2] f2, THEN conjunct2, rule_format, OF h2]
  have a2: "customers D2 = [sample_customer]"
    by (simp add: cD)
  note c1' = c1 [unfolded r1] and c2' = c2 [unfolded r2]
  have A: "\<exists>response D'. process_payment sample_env ?p1 ?D = (Inr response, D') \<and>
      map cust_total_spent (customers D') = [3050] \<and>
      map cust_loyalty_points (customers D') = [15]"
    by (rule exI [of _ response1], rule exI [of _ D1]) (intro conjI c1' a1 b1)
  have B: "\<exists>response D'. process_payment sample_env ?p2 ?D = (Inr response, D') \<and>
      customers D' = [sample_customer]"
    by (rule exI [of _ response2], rule exI [of _ D2]) (intro conjI c2' a2)
  show ?thesis
    by (rule conjI [OF A B])
qed

text \<open>
  Claim C5 at an input where the code departs from it: a cash payment of amount 0 with
  cash received 0. The cash received equals the amount, so the claim has the payment
  succeed with change 0; \<open>process_payment\<close> raises \<open>Insufficient cash received\<close>, since
  the test \<open>payment_data.cash_received and ...\<close> takes the integer 0 for an absent value.
\<close>

theorem process_payment_cash_zero:
  "process_payment sample_env (sample_payment ''o-1'' ''cash'' 0 (Some 0))
     (sample_db [sample_order ''o-1'' None ''pending'' 5])
   = (Inl (HTTPException 400 ''Insufficient cash received''),
      sample_db [sample_order ''o-1'' None ''pending'' 5])"
  by (simp add: process_payment_def find_one_def sample_db_def sample_order_def
      sample_payment_def cash_accepted_def)

text \<open>
  Everywhere else the cash rules hold as claim C5 states them. For a cash payment against
  an order that is found and not completed: absent cash, or cash below the amount, is
  rejected; cash that is not 0 and is at least the amount is accepted, and the change due
  is the difference (0 when the cash equals the amount).
\<close>

lemma process_payment_cash_rules:
  assumes "find_one (\<lambda>doc. order_id doc = pay_order_id pd) (orders D) = Some order"
    and "order_payment_status order \<noteq> ''completed''"
    and "pay_payment_method pd = ''cash''"
  shows "(pay_cash_received pd = None \<or> (\<exists>c. pay_cash_received pd = Some c \<and> c < pay_amount pd)
            \<longrightarrow> process_payment E pd D = (Inl (HTTPException 400 ''Insufficient cash received''), D))
       \<and> (\<forall>c. pay_cash_received pd = Some c \<and> pay_amount pd \<le> c \<and> c \<noteq> 0
            \<longrightarrow> (\<exists>response D'. process_payment E pd D = (Inr response, D') \<and>
                   resp_status response = ''completed'' \<and>
                   resp_change_due response = Some (c - pay_amount pd)))"
  using assms
  by (auto simp: process_payment_def Let_def cash_accepted_def truthy_int_def)




section \<open>Listing orders\<close>

lemma sort_created_at_desc_sorted:
  "sorted_wrt (\<lambda>a b. order_created_at b \<le> order_created_at a) (sort_created_at_desc docs)"
proof -
  have "sorted (map (\<lambda>order. - order_created_at order) (sort_created_at_desc docs))"
    unfolding sort_created_at_desc_def by (rule sorted_sort_key)
  then show ?thesis
    by (simp add: sorted_map)
qed

lemma find_orders_subset: "set (find_orders query docs) \<subseteq> set docs"
  by (auto simp: find_orders_def split: option.splits)

lemma get_orders_Inr:
  assumes "get_orders E date_from date_to D = Inr os"
  shows "\<exists>query. os = to_list 100 (sort_created_at_desc (find_orders query (orders D)))"
  using assms
  by (auto simp: get_orders_def split: option.splits if_splits sum.splits)

text \<open>
  Claim C7. Whatever the stored orders and the date bounds, given or not, the orders
  that \<open>get_orders\<close> returns are at most 100, are sorted by \<open>created_at\<close> in descending
  order, the newest first, and are stored orders.
\<close>

theorem get_orders_capped_sorted:
  assumes "get_orders E date_from date_to D = Inr os"
  shows "length os \<le> 100 \<and>
    sorted_wrt (\<lambda>a b. order_created_at b \<le> order_created_at a) os \<and>
    set os \<subseteq> set (orders D)"
proof -
  from get_orders_Inr [OF assms] obtain query where
    os: "os = to_list 100 (sort_created_at_desc (find_orders query (orders D)))" ..
  have a: "length os \<le> 100"
    unfolding os to_list_def by simp
  have b: "sorted_wrt (\<lambda>a b. order_created_at b \<le> order_created_at a) os"
    unfolding os to_list_def by (rule sorted_wrt_take [OF sort_created_at_desc_sorted])
  have "set os \<subseteq> set (sort_created_at_desc (find_orders query (orders D)))"
    unfolding os to_list_def by (rule set_take_subset)
  also have "\<dots> = set (find_orders query (orders D))"
    by (simp add: sort_created_at_desc_def)
  also have "\<dots> \<subseteq> set (orders D)"
    by (rule find_orders_subset)
  finally have c: "set os \<subseteq> set (orders D)" .
  from a b c show ?thesis by (intro conjI)
qed

text \<open>Three stored orders, no bounds: they come back newest first.\<close>

theorem get_orders_capped_sorted_witness:
  "get_orders sample_env None None
     (sample_db [sample_order ''o-1'' None ''pending'' 5,
                 sample_order ''o-2'' None ''pending'' 9,
                 sample_order ''o-3'' None ''pending'' 7])
     = Inr [sample_order ''o-2'' None ''pending'' 9,
            sample_order ''o-3'' None ''pending'' 7,
            sample_order ''o-1'' None ''pending'' 5] \<and>
   length [sample_order ''o-2'' None ''pending'' 9,
           sample_order ''o-3'' None ''pending'' 7,
           sample_order ''o-1'' None ''pending'' 5] \<le> 100 \<and>
   sorted_wrt (\<lambda>a b. order_created_at b \<le> order_created_at a)
     [sample_order ''o-2'' None ''pending'' 9,
      sample_order ''o-3'' None ''pending'' 7,
      sample_order ''o-1'' None ''pending'' 5]"
proof -
  let ?D = "sample_db [sample_order ''o-1'' None ''pending'' 5,
                 sample_order ''o-2'' None ''pending'' 9,
                 sample_order ''o-3'' None ''pending'' 7]"
  let ?os = "[sample_order ''o-2'' None ''pending'' 9,
            sample_order ''o-3'' None ''pending'' 7,
            sample_order ''o-1'' None ''pending'' 5]"
  have g: "get_orders sample_env None None ?D = Inr ?os"
    by (simp add: get_orders_def find_orders_def sort_created_at_desc_def to_list_def
        sample_db_def sample_order_def)
  from get_orders_capped_sorted [OF g] have "length ?os \<le> 100"
    and "sorted_wrt (\<lambda>a b. order_created_at b \<le> order_created_at a) ?os"
    by blast+
  with g show ?thesis
    by (intro conjI)
qed

text \<open>
  Claim C8, as amended. When both date bounds are given and not empty, and at least one
  of them is malformed (\<open>fromisoformat\<close> raises \<open>ValueError\<close> on it, after \<open>Z\<close> has been
  replaced), \<open>get_orders\<close> fails with the 400 response \<open>Invalid date format\<close> and
  returns no orders.
\<close>

theorem get_orders_malformed:
  assumes "date_from = Some df" and "date_to = Some dt" and "df \<noteq> []" and "dt \<noteq> []"
    and "fromisoformat E (replace_Z df) = None \<or> fromisoformat E (replace_Z dt) = None"
  shows "get_orders E date_from date_to D = Inl (HTTPException 400 ''Invalid date format'')"
  using assms by (auto simp: get_orders_def split: option.splits)

text \<open>A well-formed lower bound and a malformed upper bound.\<close>

theorem get_orders_malformed_witness:
  "fromisoformat sample_env (replace_Z ''2023-11-14T00:00:00Z'') = Some 1699920000000000 \<and>
   fromisoformat sample_env (replace_Z ''14/11/2023'') = None \<and>
   get_orders sample_env (Some ''2023-11-14T00:00:00Z'') (Some ''14/11/2023'')
     (sample_db [sample_order ''o-1'' None ''pending'' 5])
     = Inl (HTTPException 400 ''Invalid date format'')"
proof -
  have a: "fromisoformat sample_env (replace_Z ''2023-11-14T00:00:00Z'') = Some 1699920000000000"
    by (simp add: sample_env_def replace_Z_def)
  have b: "fromisoformat sample_env (replace_Z ''14/11/2023'') = None"
    by (simp add: sample_env_def replace_Z_def)
  from b have c: "fromisoformat sample_env (replace_Z ''2023-11-14T00:00:00Z'') = None \<or>
      fromisoformat sample_env (replace_Z ''14/11/2023'') = None" ..
  from a b get_orders_malformed [OF refl refl _ _ c, where D =
      "sample_db [sample_order ''o-1'' None ''pending'' 5]"]
  show ?thesis
    by simp
qed

text \<open>
  Claim C8 as the specification states it fails when only one bound is given: the
  filter is built only under \<open>if date_from and date_to\<close>, so a malformed lower bound
  without an upper bound is never parsed, and the orders are returned unfiltered.
\<close>

theorem get_orders_malformed_counterexample:
  "fromisoformat sample_env (replace_Z ''14/11/2023'') = None \<and>
   get_orders sample_env (Some ''14/11/2023'') None
     (sample_db [sample_order ''o-1'' None ''pending'' 5])
     = Inr [sample_order ''o-1'' None ''pending'' 5]"
  by (simp add: get_orders_def find_orders_def sort_created_at_desc_def to_list_def
      sample_db_def sample_env_def replace_Z_def)

end
